theory Spec2Isabelle
  imports Complex_Main "HOL-Library.Sublist"
begin

section \<open>Strings\<close>

text \<open>
  Python strings are modelled as lists of ASCII characters. Case mapping acts on the
  letters A to Z and a to z and leaves every other character alone.
\<close>

definition lower_char :: "char \<Rightarrow> char" where
  "lower_char c =
     (case map_of (zip ''ABCDEFGHIJKLMNOPQRSTUVWXYZ'' ''abcdefghijklmnopqrstuvwxyz'') c of
        None \<Rightarrow> c | Some d \<Rightarrow> d)"

definition upper_char :: "char \<Rightarrow> char" where
  "upper_char c =
     (case map_of (zip ''abcdefghijklmnopqrstuvwxyz'' ''ABCDEFGHIJKLMNOPQRSTUVWXYZ'') c of
        None \<Rightarrow> c | Some d \<Rightarrow> d)"

definition lower :: "string \<Rightarrow> string" where
  \<comment> \<open>\<open>str.lower()\<close> on ASCII strings\<close>
  "lower s = map lower_char s"

definition capitalize :: "string \<Rightarrow> string" where
  \<comment> \<open>\<open>str.capitalize()\<close>: first character upper case, the rest lower case\<close>
  "capitalize s = (case s of [] \<Rightarrow> [] | c # cs \<Rightarrow> upper_char c # lower cs)"

definition is_space :: "char \<Rightarrow> bool" where
  \<comment> \<open>the ASCII characters for which \<open>str.isspace()\<close> holds\<close>
  "is_space c \<longleftrightarrow>
     c \<in> set [CHR 0x09, CHR 0x0A, CHR 0x0B, CHR 0x0C, CHR 0x0D,
                CHR 0x1C, CHR 0x1D, CHR 0x1E, CHR 0x1F, CHR 0x20]"

definition strip :: "string \<Rightarrow> string" where
  \<comment> \<open>\<open>str.strip()\<close> on ASCII strings: leading and trailing whitespace removed\<close>
  "strip s = rev (dropWhile is_space (rev (dropWhile is_space s)))"

definition is_ascii :: "string \<Rightarrow> bool" where
  \<comment> \<open>every character is below 128: the strings on which \<open>lower\<close>, \<open>capitalize\<close> and
      \<open>strip\<close> above are what Python computes\<close>
  "is_ascii s = list_all (\<lambda>c. \<not> digit7 c) s"

fun contains :: "string \<Rightarrow> string \<Rightarrow> bool" where
  \<comment> \<open>\<open>p in s\<close> on strings\<close>
  "contains p [] = (p = [])"
| "contains p (c # cs) = (prefix p (c # cs) \<or> contains p cs)"

function replace_ne :: "string \<Rightarrow> string \<Rightarrow> string \<Rightarrow> string" where
  \<comment> \<open>\<open>s.replace(old, new)\<close> for a non-empty \<open>old\<close>: occurrences are found left to
      right, and the scan resumes behind each one\<close>
  "replace_ne old new [] = []"
| "replace_ne old new (c # cs) =
     (if old \<noteq> [] \<and> prefix old (c # cs)
      then new @ replace_ne old new (drop (length old) (c # cs))
      else c # replace_ne old new cs)"
  by pat_completeness auto
termination
  by (relation "measure (\<lambda>(old, new, s). length s)") auto

definition replace :: "string \<Rightarrow> string \<Rightarrow> string \<Rightarrow> string" where
  \<comment> \<open>\<open>s.replace(old, new)\<close>; an empty \<open>old\<close> matches before every character and
      at the end\<close>
  "replace old new s =
     (if old = [] then new @ concat (map (\<lambda>c. c # new) s) else replace_ne old new s)"

fun split_once :: "string \<Rightarrow> string \<Rightarrow> (string \<times> string) option" where
  \<comment> \<open>\<open>s.split(sep, 1)\<close> unpacked into two names: the parts around the first
      occurrence of \<open>sep\<close>, and \<open>None\<close> where Python raises ValueError because
      there is only one part\<close>
  "split_once sep [] = (if sep = [] then Some ([], []) else None)"
| "split_once sep (c # cs) =
     (if prefix sep (c # cs) then Some ([], drop (length sep) (c # cs))
      else case split_once sep cs of
             None \<Rightarrow> None
           | Some (a, b) \<Rightarrow> Some (c # a, b))"

section \<open>The key-value backend\<close>

text \<open>
  A Redis list key holds its elements, oldest first, and an optional expiry deadline. A
  key whose deadline has passed is absent. The two key families of the program,
  \<open>rate_limit:<user>\<close> and \<open>history:<user>\<close>, never collide, so each is a map of its
  own, keyed by the user identifier. Time is a real number of seconds.
\<close>

type_synonym 'a keyspace = "string \<rightharpoonup> 'a list \<times> real option"

definition expired :: "real \<Rightarrow> real option \<Rightarrow> bool" where
  "expired now d = (case d of None \<Rightarrow> False | Some t \<Rightarrow> t \<le> now)"

definition lrange_all :: "'a keyspace \<Rightarrow> real \<Rightarrow> string \<Rightarrow> 'a list" where
  \<comment> \<open>\<open>LRANGE key 0 -1\<close>: a missing key reads as the empty list\<close>
  "lrange_all ks now k =
     (case ks k of
        None \<Rightarrow> []
      | Some (xs, d) \<Rightarrow> if expired now d then [] else xs)"

definition deadline :: "'a keyspace \<Rightarrow> real \<Rightarrow> string \<Rightarrow> real option" where
  \<comment> \<open>the expiry deadline of a key that is present\<close>
  "deadline ks now k =
     (case ks k of
        None \<Rightarrow> None
      | Some (xs, d) \<Rightarrow> if expired now d then None else d)"

definition store_list :: "'a keyspace \<Rightarrow> string \<Rightarrow> 'a list \<Rightarrow> real option \<Rightarrow> 'a keyspace" where
  \<comment> \<open>Redis deletes a list key when its list becomes empty\<close>
  "store_list ks k xs d = (if xs = [] then ks(k := None) else ks(k \<mapsto> (xs, d)))"

definition rpush :: "'a keyspace \<Rightarrow> real \<Rightarrow> string \<Rightarrow> 'a list \<Rightarrow> 'a keyspace" where
  \<comment> \<open>\<open>RPUSH key v1 v2 ...\<close>: append at the tail, creating the key when it is missing\<close>
  "rpush ks now k vs = store_list ks k (lrange_all ks now k @ vs) (deadline ks now k)"

definition ltrim_list :: "'a list \<Rightarrow> int \<Rightarrow> int \<Rightarrow> 'a list" where
  \<comment> \<open>the elements \<open>LTRIM\<close> keeps: indices from \<open>start\<close> to \<open>stop\<close> inclusive, a
      negative index counting from the tail\<close>
  "ltrim_list xs start stop =
     (let n = int (length xs);
          s0 = (if start < 0 then max 0 (n + start) else start);
          e0 = (if stop < 0 then n + stop else stop);
          e1 = min e0 (n - 1)
      in if s0 > e1 then [] else take (nat (e1 - s0 + 1)) (drop (nat s0) xs))"

definition ltrim :: "'a keyspace \<Rightarrow> real \<Rightarrow> string \<Rightarrow> int \<Rightarrow> int \<Rightarrow> 'a keyspace" where
  "ltrim ks now k start stop =
     store_list ks k (ltrim_list (lrange_all ks now k) start stop) (deadline ks now k)"

definition expire :: "'a keyspace \<Rightarrow> real \<Rightarrow> string \<Rightarrow> real \<Rightarrow> 'a keyspace" where
  \<comment> \<open>\<open>EXPIRE key seconds\<close>: no effect on a missing key\<close>
  "expire ks now k secs =
     (if lrange_all ks now k = [] then ks
      else ks(k \<mapsto> (lrange_all ks now k, Some (now + secs))))"

section \<open>The state of the application\<close>

record world =
  rate_keys :: "real keyspace"
  history_keys :: "string \<rightharpoonup> string list"
  memo :: "string \<rightharpoonup> string \<times> real"
  fetch_calls :: "string list"
  model_calls :: "(string \<times> string) list list"

text \<open>
  \<open>rate_keys\<close> and \<open>history_keys\<close> are the Redis keys, \<open>memo\<close> is the in-process
  cache of the \<open>aiocache.cached\<close> decorator: each entry holds its value and the time at
  which it is dropped. \<open>fetch_calls\<close> and \<open>model_calls\<close> record the calls made to the
  two collaborators, oldest first: the arguments with which the body of
  \<open>fetch_crypto_price\<close> ran, and the message lists sent to the language model. The
  history keys never receive an expiry.
\<close>

definition init :: world where
  "init = \<lparr>rate_keys = Map.empty, history_keys = Map.empty, memo = Map.empty,
           fetch_calls = [], model_calls = []\<rparr>"

datatype usd = Usd (truthy: bool) (shown: string)

datatype http_result = Raised | Response nat "usd option"

text \<open>
  What the price request gives back: \<open>Raised\<close> for a timeout, a connection error or a
  body that is not a JSON object; otherwise the status and the value found under
  \<open>data[id]["usd"]\<close>, reduced to the two things the code reads of it, its truth value
  and its rendering by \<open>str\<close>.
\<close>

record env =
  http_get :: "real \<Rightarrow> string \<Rightarrow> http_result"
  chat_completion :: "real \<Rightarrow> (string \<times> string) list \<Rightarrow> string option"

text \<open>
  The collaborators: the price API, asked at a time for a coin identifier, and the
  language model, asked at a time with a list of (role, content) messages; \<open>None\<close> is
  a call that raises.
\<close>

section \<open>Rate limiting\<close>

definition REQUEST_LIMIT :: nat where
  "REQUEST_LIMIT = 5"

definition TIME_FRAME :: real where
  "TIME_FRAME = 60"

datatype fault = NoFault | ReadFault | WriteFault bool

text \<open>
  A backend error during one call of the limiter: \<open>ReadFault\<close> when the first
  \<open>execute\<close> raises, \<open>WriteFault applied\<close> when the second one raises. The pipeline is a
  MULTI/EXEC transaction, so the three queued commands have then run all
  (\<open>applied = True\<close>, the reply was lost) or not at all.
\<close>

datatype error = ValueError | BackendError

definition execute_lrange :: "fault \<Rightarrow> real keyspace \<Rightarrow> real \<Rightarrow> string \<Rightarrow> error + real list" where
  \<comment> \<open>the first \<open>pipe.execute()\<close>: the queued \<open>lrange(key, 0, -1)\<close>\<close>
  "execute_lrange f ks now k =
     (if f = ReadFault then Inl BackendError else Inr (lrange_all ks now k))"

definition execute_record ::
  "fault \<Rightarrow> real keyspace \<Rightarrow> real \<Rightarrow> string \<Rightarrow> (error + unit) \<times> real keyspace" where
  \<comment> \<open>the second \<open>pipe.execute()\<close>: the queued \<open>rpush\<close>, \<open>ltrim\<close> and \<open>expire\<close>\<close>
  "execute_record f ks now k =
     (let ks1 = rpush ks now k [now];
          ks2 = ltrim ks1 now k (- int REQUEST_LIMIT) (- 1);
          ks3 = expire ks2 now k TIME_FRAME
      in case f of
           WriteFault applied \<Rightarrow> (Inl BackendError, if applied then ks3 else ks)
         | _ \<Rightarrow> (Inr (), ks3))"

definition rate_limited_try :: "fault \<Rightarrow> string \<Rightarrow> real \<Rightarrow> world \<Rightarrow> (error + bool) \<times> world" where
  \<comment> \<open>the body of the \<open>try\<close> block; \<open>Inl\<close> is an exception leaving it\<close>
  "rate_limited_try f user_id current_time w =
     (case execute_lrange f (rate_keys w) current_time user_id of
        Inl err \<Rightarrow> (Inl err, w)
      | Inr stored \<Rightarrow>
          (let requests = filter (\<lambda>t. current_time - t < TIME_FRAME) stored
           in if length requests \<ge> REQUEST_LIMIT then (Inr False, w)
              else (case execute_record f (rate_keys w) current_time user_id of
                      (Inl err, ks) \<Rightarrow> (Inl err, w\<lparr>rate_keys := ks\<rparr>)
                    | (Inr u, ks) \<Rightarrow> (Inr True, w\<lparr>rate_keys := ks\<rparr>))))"

definition rate_limited :: "fault \<Rightarrow> string \<Rightarrow> real \<Rightarrow> world \<Rightarrow> bool \<times> world" where
  \<comment> \<open>\<open>except Exception\<close>: the error is logged and the request is refused\<close>
  "rate_limited f user_id current_time w =
     (case rate_limited_try f user_id current_time w of
        (Inl err, w1) \<Rightarrow> (False, w1)
      | (Inr b, w1) \<Rightarrow> (b, w1))"

section \<open>Chat history\<close>

definition update_chat_history :: "string \<Rightarrow> string \<Rightarrow> string \<Rightarrow> world \<Rightarrow> world" where
  "update_chat_history user_id user_message assistant_response w =
     (let old = (case history_keys w user_id of None \<Rightarrow> [] | Some xs \<Rightarrow> xs);
          pushed = old @ [''User: '' @ user_message, ''AI: '' @ assistant_response];
          kept = ltrim_list pushed (- 10) (- 1)
      in w\<lparr>history_keys :=
             (if kept = [] then (history_keys w)(user_id := None)
              else (history_keys w)(user_id \<mapsto> kept))\<rparr>)"

definition get_chat_history :: "string \<Rightarrow> world \<Rightarrow> string list" where
  "get_chat_history user_id w =
     (case history_keys w user_id of None \<Rightarrow> [] | Some xs \<Rightarrow> xs)"

section \<open>Price lookup behind the cache\<close>

definition fetch_body :: "env \<Rightarrow> string \<Rightarrow> real \<Rightarrow> world \<Rightarrow> string \<times> world" where
  \<comment> \<open>the undecorated body of \<open>fetch_crypto_price\<close>\<close>
  "fetch_body e crypto_name now w =
     (let w1 = w\<lparr>fetch_calls := fetch_calls w @ [crypto_name]\<rparr>
      in case http_get e now (lower crypto_name) of
           Raised \<Rightarrow> (''Error fetching price.'', w1)
         | Response status price \<Rightarrow>
             if status \<noteq> 200 then (''Failed to fetch '' @ crypto_name @ '' price.'', w1)
             else (case price of
                     Some (Usd True p) \<Rightarrow>
                       (''The current price of '' @ capitalize crypto_name @ '' is $'' @ p, w1)
                   | _ \<Rightarrow> (''Price for '' @ crypto_name @ '' not found.'', w1)))"

definition TTL :: real where
  "TTL = 30"

definition cache_get :: "(string \<rightharpoonup> string \<times> real) \<Rightarrow> real \<Rightarrow> string \<Rightarrow> string option" where
  \<comment> \<open>an entry is gone once its time to live has run out\<close>
  "cache_get m now k =
     (case m k of None \<Rightarrow> None | Some (v, d) \<Rightarrow> if now < d then Some v else None)"

definition fetch_crypto_price :: "env \<Rightarrow> string \<Rightarrow> real \<Rightarrow> world \<Rightarrow> string \<times> world" where
  \<comment> \<open>\<open>@aiocache.cached(ttl=30)\<close> around the body: the key is built from the argument
      as it is passed, and every result that is not \<open>None\<close> is stored\<close>
  "fetch_crypto_price e crypto_name now w =
     (case cache_get (memo w) now crypto_name of
        Some v \<Rightarrow> (v, w)
      | None \<Rightarrow>
          (case fetch_body e crypto_name now w of
             (r, w1) \<Rightarrow> (r, w1\<lparr>memo := (memo w1)(crypto_name \<mapsto> (r, now + TTL))\<rparr>)))"

section \<open>Answers of the language model\<close>

fun history_messages :: "string list \<Rightarrow> error + (string \<times> string) list" where
  \<comment> \<open>the loop over the history: each entry is split at its first \<open>": "\<close>\<close>
  "history_messages [] = Inr []"
| "history_messages (m # ms) =
     (case split_once '': '' m of
        None \<Rightarrow> Inl ValueError
      | Some (role, content) \<Rightarrow>
          (case history_messages ms of
             Inl err \<Rightarrow> Inl err
           | Inr rest \<Rightarrow>
               Inr ((if role = ''User'' then ''user'' else ''assistant'', content) # rest)))"

definition build_messages :: "string list \<Rightarrow> string \<Rightarrow> error + (string \<times> string) list" where
  "build_messages hist user_input =
     (case history_messages hist of
        Inl err \<Rightarrow> Inl err
      | Inr ms \<Rightarrow>
          Inr ([(''system'', ''Respond in English and retain conversation context.'')]
               @ ms @ [(''user'', user_input)]))"

definition enforce_english_response ::
  "env \<Rightarrow> string \<Rightarrow> string \<Rightarrow> real \<Rightarrow> world \<Rightarrow> (error + string) \<times> world" where
  "enforce_english_response e user_id user_input now w =
     (case build_messages (get_chat_history user_id w) user_input of
        Inl err \<Rightarrow> (Inl err, w)
      | Inr messages \<Rightarrow>
          (let w1 = w\<lparr>model_calls := model_calls w @ [messages]\<rparr>
           in case chat_completion e now messages of
                None \<Rightarrow> (Inr ''I encountered an issue. Please try again.'', w1)
              | Some assistant_response \<Rightarrow>
                  (Inr assistant_response,
                   update_chat_history user_id user_input assistant_response w1)))"

section \<open>The endpoint\<close>

record request =
  user_id :: string
  action :: string
  text_field :: string

text \<open>
  The JSON body of a request, each field with the default the code gives it when it is
  missing: the empty string (a missing \<open>user_id\<close> is rejected exactly as an empty one).
\<close>

definition ai_agent ::
  "env \<Rightarrow> fault \<Rightarrow> request \<Rightarrow> real \<Rightarrow> world \<Rightarrow> (error + nat \<times> string) \<times> world" where
  \<comment> \<open>the result is the status and the text of the response; the branch for the
      action \<open>translate\<close> and the final \<open>return\<close> make the same call, so they are one
      branch here; \<open>Inl\<close> is an exception that nothing catches\<close>
  "ai_agent e f req now w =
     (let act = lower (action req);
          user_message = text_field req
      in if user_id req = [] then (Inr (400, ''Missing user_id.''), w)
         else
           (case rate_limited f (user_id req) now w of
              (False, w1) \<Rightarrow> (Inr (429, ''Rate limit exceeded.''), w1)
            | (True, w1) \<Rightarrow>
                if contains ''price'' act
                then (case fetch_crypto_price e (strip (replace ''price of'' [] act)) now w1 of
                        (r, w2) \<Rightarrow> (Inr (200, r), w2))
                else (case enforce_english_response e (user_id req) user_message now w1 of
                        (Inl err, w2) \<Rightarrow> (Inl err, w2)
                      | (Inr r, w2) \<Rightarrow> (Inr (200, r), w2))))"

section \<open>Runs\<close>

fun admit_all :: "string \<Rightarrow> real list \<Rightarrow> world \<Rightarrow> bool list \<times> world" where
  \<comment> \<open>one user calling the limiter at the given times, in order\<close>
  "admit_all u [] w = ([], w)"
| "admit_all u (t # ts) w =
     (case rate_limited NoFault u t w of
        (b, w1) \<Rightarrow> (case admit_all u ts w1 of (bs, w2) \<Rightarrow> (b # bs, w2)))"

type_synonym call = "env \<times> fault \<times> request \<times> real"

fun run :: "call list \<Rightarrow> world \<Rightarrow> world" where
  \<comment> \<open>the requests served one after the other\<close>
  "run [] w = w"
| "run ((e, f, req, now) # cs) w = run cs (snd (ai_agent e f req now w))"

fun append_all :: "string \<Rightarrow> (string \<times> string) list \<Rightarrow> world \<Rightarrow> world" where
  \<comment> \<open>the exchanges (user message, assistant response) of one user, appended in order\<close>
  "append_all u [] w = w"
| "append_all u ((m, r) # xs) w = append_all u xs (update_chat_history u m r w)"

definition exchange_entries :: "(string \<times> string) list \<Rightarrow> string list" where
  \<comment> \<open>the log entries the exchanges stand for, oldest first\<close>
  "exchange_entries xs = concat (map (\<lambda>(m, r). [''User: '' @ m, ''AI: '' @ r]) xs)"

definition lastn :: "nat \<Rightarrow> 'a list \<Rightarrow> 'a list" where
  "lastn n xs = drop (length xs - n) xs"

definition rate_bounded :: "world \<Rightarrow> bool" where
  \<comment> \<open>no stored window is longer than the request limit\<close>
  "rate_bounded w \<longleftrightarrow>
     (\<forall>k xs d. rate_keys w k = Some (xs, d) \<longrightarrow> length xs \<le> REQUEST_LIMIT)"

definition failed :: "http_result \<Rightarrow> bool" where
  \<comment> \<open>the outcomes of the price request that are not a price: an exception, a status
      other than 200, no value or a false one under \<open>usd\<close>\<close>
  "failed r =
     (case r of
        Raised \<Rightarrow> True
      | Response status price \<Rightarrow>
          status \<noteq> 200 \<or> (case price of Some (Usd True p) \<Rightarrow> False | _ \<Rightarrow> True))"

section \<open>Sample collaborators\<close>

definition env_up :: env where
  \<comment> \<open>the price API answers 200 with a price, the model answers\<close>
  "env_up = \<lparr>http_get = (\<lambda>t k. Response 200 (Some (Usd True ''67000''))),
             chat_completion = (\<lambda>t ms. Some ''ok'')\<rparr>"

definition env_down :: env where
  \<comment> \<open>the price request raises, the model call raises\<close>
  "env_down = \<lparr>http_get = (\<lambda>t k. Raised), chat_completion = (\<lambda>t ms. None)\<rparr>"

section \<open>Properties\<close>

subsection \<open>Trimming and the recorded window\<close>

lemma ltrim_list_lastn: "0 < n \<Longrightarrow> ltrim_list xs (- int n) (- 1) = lastn n xs"
  by (cases "xs = []") (auto simp: ltrim_list_def lastn_def Let_def max_def min_def nat_diff_distrib')

lemma lastn_nonempty: "0 < n \<Longrightarrow> xs \<noteq> [] \<Longrightarrow> lastn n xs \<noteq> []"
  by (cases xs) (auto simp: lastn_def)

lemma length_lastn: "length (lastn n xs) = min n (length xs)"
  by (simp add: lastn_def)

lemma deadline_live: "\<not> expired now (deadline ks now k)"
  by (auto simp: deadline_def expired_def split: option.splits)

lemma recorded:
  "expire (ltrim (rpush ks now k [now]) now k (- int REQUEST_LIMIT) (- 1)) now k TIME_FRAME
     = ks(k \<mapsto> (lastn REQUEST_LIMIT (lrange_all ks now k @ [now]), Some (now + TIME_FRAME)))"
proof -
  let ?xs = "lrange_all ks now k @ [now]"
  let ?d = "deadline ks now k"
  have live: "\<not> expired now ?d" by (rule deadline_live)
  have ks1: "rpush ks now k [now] = ks(k \<mapsto> (?xs, ?d))"
    by (simp add: rpush_def store_list_def)
  have r1: "lrange_all (ks(k \<mapsto> (?xs, ?d))) now k = ?xs"
    using live by (simp add: lrange_all_def)
  have d1: "deadline (ks(k \<mapsto> (?xs, ?d))) now k = ?d"
    using live by (simp add: deadline_def)
  have pos: "0 < REQUEST_LIMIT" by (simp add: REQUEST_LIMIT_def)
  let ?ys = "lastn REQUEST_LIMIT ?xs"
  have ne: "?ys \<noteq> []" using pos by (simp add: lastn_nonempty)
  have ks2: "ltrim (ks(k \<mapsto> (?xs, ?d))) now k (- int REQUEST_LIMIT) (- 1) = ks(k \<mapsto> (?ys, ?d))"
    using ne by (simp add: ltrim_def r1 d1 ltrim_list_lastn [OF pos] store_list_def)
  have r2: "lrange_all (ks(k \<mapsto> (?ys, ?d))) now k = ?ys"
    using live by (simp add: lrange_all_def)
  have "expire (ks(k \<mapsto> (?ys, ?d))) now k TIME_FRAME = ks(k \<mapsto> (?ys, Some (now + TIME_FRAME)))"
    using ne by (simp add: expire_def r2)
  then show ?thesis by (simp add: ks1 ks2)
qed

lemma execute_record_NoFault:
  "execute_record NoFault ks now k
     = (Inr (), ks(k \<mapsto> (lastn REQUEST_LIMIT (lrange_all ks now k @ [now]), Some (now + TIME_FRAME))))"
  by (simp add: execute_record_def Let_def recorded)

lemma execute_record_WriteFault:
  "execute_record (WriteFault b) ks now k
     = (Inl BackendError,
        if b then ks(k \<mapsto> (lastn REQUEST_LIMIT (lrange_all ks now k @ [now]), Some (now + TIME_FRAME)))
        else ks)"
  by (simp add: execute_record_def Let_def recorded)

lemma rate_limited_NoFault:
  "rate_limited NoFault u now w =
     (if REQUEST_LIMIT \<le> length (filter (\<lambda>t. now - t < TIME_FRAME) (lrange_all (rate_keys w) now u))
      then (False, w)
      else (True, w\<lparr>rate_keys := (rate_keys w)(u \<mapsto>
              (lastn REQUEST_LIMIT (lrange_all (rate_keys w) now u @ [now]), Some (now + TIME_FRAME)))\<rparr>))"
  by (simp add: rate_limited_def rate_limited_try_def execute_lrange_def execute_record_NoFault Let_def)

subsection \<open>What a call changes\<close>

lemma rate_limited_cases:
  "snd (rate_limited f u now w) = w \<or>
   snd (rate_limited f u now w) = w\<lparr>rate_keys := (rate_keys w)(u \<mapsto>
      (lastn REQUEST_LIMIT (lrange_all (rate_keys w) now u @ [now]), Some (now + TIME_FRAME)))\<rparr>"
  by (cases f)
     (auto simp: rate_limited_def rate_limited_try_def execute_lrange_def
                 execute_record_NoFault execute_record_WriteFault Let_def)

lemma rate_limited_others:
  "history_keys (snd (rate_limited f u now w)) = history_keys w \<and>
   memo (snd (rate_limited f u now w)) = memo w \<and>
   fetch_calls (snd (rate_limited f u now w)) = fetch_calls w \<and>
   model_calls (snd (rate_limited f u now w)) = model_calls w"
  using rate_limited_cases [of f u now w] by auto

lemma rate_bounded_record:
  assumes "rate_bounded w"
  shows "rate_bounded (w\<lparr>rate_keys := (rate_keys w)(u \<mapsto>
      (lastn REQUEST_LIMIT (xs @ [now]), d))\<rparr>)"
  using assms by (auto simp: rate_bounded_def length_lastn)

lemma rate_limited_bounded: "rate_bounded w \<Longrightarrow> rate_bounded (snd (rate_limited f u now w))"
  using rate_limited_cases [of f u now w] by (auto simp: rate_bounded_record)

lemma update_chat_history_rate [simp]: "rate_keys (update_chat_history u m r w) = rate_keys w"
  by (simp add: update_chat_history_def Let_def)

lemma fetch_crypto_price_rate [simp]: "rate_keys (snd (fetch_crypto_price e k now w)) = rate_keys w"
  by (simp add: fetch_crypto_price_def fetch_body_def Let_def
           split: option.splits http_result.splits usd.splits bool.splits)

lemma enforce_english_response_rate [simp]:
  "rate_keys (snd (enforce_english_response e u x now w)) = rate_keys w"
  by (simp add: enforce_english_response_def Let_def split: sum.splits option.splits)

lemma ai_agent_rate:
  "rate_keys (snd (ai_agent e f req now w)) = rate_keys w \<or>
   rate_keys (snd (ai_agent e f req now w)) = rate_keys (snd (rate_limited f (user_id req) now w))"
proof -
  have a: "\<And>k w1. rate_keys (snd (case fetch_crypto_price e k now w1 of (r, w2) \<Rightarrow> (Inr (200::nat, r), w2))) = rate_keys w1"
    by (simp add: split_beta)
  have b: "\<And>u x w1. rate_keys (snd (case enforce_english_response e u x now w1 of
              (Inl err, w2) \<Rightarrow> (Inl err, w2) | (Inr r, w2) \<Rightarrow> (Inr (200::nat, r), w2))) = rate_keys w1"
    by (simp add: split_beta split: sum.splits)
  show ?thesis
    by (cases "rate_limited f (user_id req) now w")
       (simp add: ai_agent_def Let_def a b split: bool.splits)
qed

lemma ai_agent_bounded:
  assumes "rate_bounded w"
  shows "rate_bounded (snd (ai_agent e f req now w))"
proof -
  from ai_agent_rate [of e f req now w] show ?thesis
  proof
    assume "rate_keys (snd (ai_agent e f req now w)) = rate_keys w"
    then show ?thesis using assms by (simp add: rate_bounded_def)
  next
    assume "rate_keys (snd (ai_agent e f req now w))
              = rate_keys (snd (rate_limited f (user_id req) now w))"
    then show ?thesis
      using rate_limited_bounded [OF assms, of f "user_id req" now]
      by (simp add: rate_bounded_def)
  qed
qed

lemma run_bounded: "rate_bounded w \<Longrightarrow> rate_bounded (run cs w)"
  by (induction cs w rule: run.induct) (auto simp: ai_agent_bounded)

lemma init_bounded: "rate_bounded init"
  by (simp add: rate_bounded_def init_def)

lemma bounded_lrange: "rate_bounded w \<Longrightarrow> length (lrange_all (rate_keys w) now k) \<le> REQUEST_LIMIT"
  by (auto simp: rate_bounded_def lrange_all_def split: option.splits)

lemma filter_stale: "\<forall>t\<in>set xs. TIME_FRAME \<le> now - t \<Longrightarrow> filter (\<lambda>t. now - t < TIME_FRAME) xs = []"
  by (induction xs) auto

subsection \<open>The window of the limiter\<close>

text \<open>
  C1. With a limit of 5 requests in 60 seconds, a user with no stored window who calls
  the limiter five times at time 0, once at time 10 and once at time 61 is admitted five
  times, refused at time 10 and admitted again at time 61.
\<close>

theorem rate_limit_window_example:
  "rate_keys w u = None \<Longrightarrow>
   fst (admit_all u [0, 0, 0, 0, 0, 10, 61] w) = [True, True, True, True, True, False, True]"
  by (simp add: rate_limited_NoFault lrange_all_def lastn_def expired_def
                REQUEST_LIMIT_def TIME_FRAME_def)

theorem rate_limit_window_example_witness:
  "rate_keys init ''alice'' = None \<and>
   fst (admit_all ''alice'' [0, 0, 0, 0, 0, 10, 61] init)
     = [True, True, True, True, True, False, True]"
proof -
  have h: "rate_keys init ''alice'' = None" by (simp add: init_def)
  show ?thesis using h rate_limit_window_example [OF h] by simp
qed

subsection \<open>The decision of the limiter and the bound on the window\<close>

text \<open>
  C7. A call of the limiter counts the stored timestamps \<open>t\<close> with
  \<open>now - t < TIME_FRAME\<close>. With at least \<open>REQUEST_LIMIT\<close> of them it returns False and
  changes nothing. Otherwise it returns True, the stored window becomes the last
  \<open>REQUEST_LIMIT\<close> entries of the old one followed by \<open>now\<close>, and the key expires
  \<open>TIME_FRAME\<close> seconds later. Stale entries are not counted: a window of stale entries
  only never refuses. A call keeps every stored window within \<open>REQUEST_LIMIT\<close> entries, so
  after every call of every run of the application no stored window is longer.
\<close>

theorem rate_limited_decision:
  "let stored = lrange_all (rate_keys w) now u;
       live = filter (\<lambda>t. now - t < TIME_FRAME) stored;
       w' = snd (rate_limited NoFault u now w)
   in (REQUEST_LIMIT \<le> length live \<longrightarrow> rate_limited NoFault u now w = (False, w)) \<and>
      (length live < REQUEST_LIMIT \<longrightarrow>
         fst (rate_limited NoFault u now w) = True \<and>
         lrange_all (rate_keys w') now u = lastn REQUEST_LIMIT (stored @ [now]) \<and>
         deadline (rate_keys w') now u = Some (now + TIME_FRAME)) \<and>
      ((\<forall>t\<in>set stored. TIME_FRAME \<le> now - t) \<longrightarrow> fst (rate_limited NoFault u now w) = True) \<and>
      (rate_bounded w \<longrightarrow> rate_bounded w') \<and>
      length (lrange_all (rate_keys (snd (rate_limited f u now (run cs init)))) now' u')
        \<le> REQUEST_LIMIT"
proof -
  have pos: "0 < REQUEST_LIMIT" by (simp add: REQUEST_LIMIT_def)
  have tf: "0 < TIME_FRAME" by (simp add: TIME_FRAME_def)
  have 1: "REQUEST_LIMIT \<le> length (filter (\<lambda>t. now - t < TIME_FRAME) (lrange_all (rate_keys w) now u))
           \<longrightarrow> rate_limited NoFault u now w = (False, w)"
    by (simp add: rate_limited_NoFault)
  have 2: "length (filter (\<lambda>t. now - t < TIME_FRAME) (lrange_all (rate_keys w) now u)) < REQUEST_LIMIT
           \<longrightarrow> fst (rate_limited NoFault u now w) = True \<and>
               lrange_all (rate_keys (snd (rate_limited NoFault u now w))) now u
                 = lastn REQUEST_LIMIT (lrange_all (rate_keys w) now u @ [now]) \<and>
               deadline (rate_keys (snd (rate_limited NoFault u now w))) now u = Some (now + TIME_FRAME)"
    using tf by (simp add: rate_limited_NoFault lrange_all_def deadline_def expired_def)
  have 3: "(\<forall>t\<in>set (lrange_all (rate_keys w) now u). TIME_FRAME \<le> now - t)
           \<longrightarrow> fst (rate_limited NoFault u now w) = True"
    using pos by (simp add: rate_limited_NoFault filter_stale)
  have 4: "rate_bounded w \<longrightarrow> rate_bounded (snd (rate_limited NoFault u now w))"
    by (simp add: rate_limited_bounded)
  have "rate_bounded (snd (rate_limited f u now (run cs init)))"
    by (intro rate_limited_bounded run_bounded init_bounded)
  then have 5: "length (lrange_all (rate_keys (snd (rate_limited f u now (run cs init)))) now' u')
        \<le> REQUEST_LIMIT"
    by (rule bounded_lrange)
  show ?thesis unfolding Let_def by (intro conjI 1 2 3 4 5)
qed


theorem rate_limited_decision_witness:
  "REQUEST_LIMIT \<le> length (filter (\<lambda>t. 10 - t < TIME_FRAME)
      (lrange_all (rate_keys (init\<lparr>rate_keys := [''alice'' \<mapsto> ([0, 0, 0, 0, 0], Some 60)]\<rparr>)) 10 ''alice'')) \<and>
   rate_limited NoFault ''alice'' 10 (init\<lparr>rate_keys := [''alice'' \<mapsto> ([0, 0, 0, 0, 0], Some 60)]\<rparr>)
     = (False, init\<lparr>rate_keys := [''alice'' \<mapsto> ([0, 0, 0, 0, 0], Some 60)]\<rparr>) \<and>
   length (filter (\<lambda>t. 70 - t < TIME_FRAME)
      (lrange_all (rate_keys (init\<lparr>rate_keys := [''alice'' \<mapsto> ([0, 0, 0, 0, 50], Some 110)]\<rparr>)) 70 ''alice''))
     < REQUEST_LIMIT \<and>
   fst (rate_limited NoFault ''alice'' 70 (init\<lparr>rate_keys := [''alice'' \<mapsto> ([0, 0, 0, 0, 50], Some 110)]\<rparr>)) = True \<and>
   lrange_all (rate_keys (snd (rate_limited NoFault ''alice'' 70
      (init\<lparr>rate_keys := [''alice'' \<mapsto> ([0, 0, 0, 0, 50], Some 110)]\<rparr>)))) 70 ''alice''
     = [0, 0, 0, 50, 70] \<and>
   lrange_all (rate_keys (init\<lparr>rate_keys := [''alice'' \<mapsto> ([0, 0, 0, 0, 0], Some 200)]\<rparr>)) 100 ''alice''
     = [0, 0, 0, 0, 0] \<and>
   fst (rate_limited NoFault ''alice'' 100 (init\<lparr>rate_keys := [''alice'' \<mapsto> ([0, 0, 0, 0, 0], Some 200)]\<rparr>)) = True \<and>
   length (lrange_all (rate_keys (snd (rate_limited NoFault ''alice'' 100
      (init\<lparr>rate_keys := [''alice'' \<mapsto> ([0, 0, 0, 0, 0], Some 200)]\<rparr>)))) 100 ''alice'') \<le> REQUEST_LIMIT"
proof -
  let ?w1 = "init\<lparr>rate_keys := [''alice'' \<mapsto> ([0, 0, 0, 0, 0], Some 60)]\<rparr>"
  let ?w2 = "init\<lparr>rate_keys := [''alice'' \<mapsto> ([0, 0, 0, 0, 50], Some 110)]\<rparr>"
  let ?w3 = "init\<lparr>rate_keys := [''alice'' \<mapsto> ([0, 0, 0, 0, 0], Some 200)]\<rparr>"
  have h1: "REQUEST_LIMIT \<le> length (filter (\<lambda>t. 10 - t < TIME_FRAME)
              (lrange_all (rate_keys ?w1) 10 ''alice''))"
    by (simp add: lrange_all_def expired_def REQUEST_LIMIT_def TIME_FRAME_def)
  have h2: "length (filter (\<lambda>t. 70 - t < TIME_FRAME)
              (lrange_all (rate_keys ?w2) 70 ''alice'')) < REQUEST_LIMIT"
    by (simp add: lrange_all_def expired_def REQUEST_LIMIT_def TIME_FRAME_def)
  have s2: "lastn REQUEST_LIMIT (lrange_all (rate_keys ?w2) 70 ''alice'' @ [70])
              = [0, 0, 0, 50, 70]"
    by (simp add: lrange_all_def expired_def REQUEST_LIMIT_def lastn_def)
  have s3: "lrange_all (rate_keys ?w3) 100 ''alice'' = [0, 0, 0, 0, 0]"
    by (simp add: lrange_all_def expired_def)
  have h3: "\<forall>t\<in>set (lrange_all (rate_keys ?w3) 100 ''alice''). TIME_FRAME \<le> 100 - t"
    by (simp add: lrange_all_def expired_def TIME_FRAME_def)
  have h4: "rate_bounded ?w3"
    by (simp add: rate_bounded_def REQUEST_LIMIT_def)
  note a = rate_limited_decision [where w = ?w1 and now = 10 and u = "''alice''", unfolded Let_def]
  note b = rate_limited_decision [where w = ?w2 and now = 70 and u = "''alice''", unfolded Let_def]
  note c = rate_limited_decision [where w = ?w3 and now = 100 and u = "''alice''", unfolded Let_def]
  have r1: "rate_limited NoFault ''alice'' 10 ?w1 = (False, ?w1)"
    using a h1 by blast
  have r2: "fst (rate_limited NoFault ''alice'' 70 ?w2) = True \<and>
            lrange_all (rate_keys (snd (rate_limited NoFault ''alice'' 70 ?w2))) 70 ''alice''
              = [0, 0, 0, 50, 70]"
    using b h2 s2 by simp
  have r3: "fst (rate_limited NoFault ''alice'' 100 ?w3) = True"
    using c h3 by blast
  have "rate_bounded (snd (rate_limited NoFault ''alice'' 100 ?w3))"
    using c h4 by blast
  then have r4: "length (lrange_all (rate_keys (snd (rate_limited NoFault ''alice'' 100 ?w3)))
                   100 ''alice'') \<le> REQUEST_LIMIT"
    by (rule bounded_lrange)
  show ?thesis
    by (intro conjI h1 r1 h2 r2 [THEN conjunct1] r2 [THEN conjunct2] s3 r3 r4)
qed

subsection \<open>Backend errors\<close>

text \<open>
  C5. A call of the limiter during which a backend operation raises returns False: this
  holds for every scheduled fault, and for every exception that leaves the \<open>try\<close> block.
\<close>

theorem rate_limited_fails_closed:
  "(f \<noteq> NoFault \<longrightarrow> fst (rate_limited f u now w) = False) \<and>
   ((\<exists>err. fst (rate_limited_try f u now w) = Inl err) \<longrightarrow> fst (rate_limited f u now w) = False)"
proof
  show "f \<noteq> NoFault \<longrightarrow> fst (rate_limited f u now w) = False"
    by (cases f)
       (auto simp: rate_limited_def rate_limited_try_def execute_lrange_def
                   execute_record_WriteFault Let_def)
  show "(\<exists>err. fst (rate_limited_try f u now w) = Inl err) \<longrightarrow> fst (rate_limited f u now w) = False"
    by (auto simp: rate_limited_def split: prod.splits sum.splits)
qed

theorem rate_limited_fails_closed_witness:
  "WriteFault True \<noteq> NoFault \<and>
   fst (rate_limited_try (WriteFault True) ''alice'' 0 init) = Inl BackendError \<and>
   fst (rate_limited (WriteFault True) ''alice'' 0 init) = False"
proof -
  have raised: "fst (rate_limited_try (WriteFault True) ''alice'' 0 init) = Inl BackendError"
    by (simp add: rate_limited_try_def execute_lrange_def execute_record_WriteFault
                  lrange_all_def init_def REQUEST_LIMIT_def Let_def)
  then have "\<exists>err. fst (rate_limited_try (WriteFault True) ''alice'' 0 init) = Inl err"
    by blast
  with rate_limited_fails_closed [of "WriteFault True" "''alice''" 0 init] raised
  show ?thesis by simp
qed

subsection \<open>The conversation log\<close>

lemma lastn_append_lastn: "lastn n (lastn n xs @ ys) = lastn n (xs @ ys)"
  by (cases "length xs \<le> n") (auto simp: lastn_def add.commute)

lemma get_after_update:
  "get_chat_history u (update_chat_history u m r w)
     = lastn 10 (get_chat_history u w @ [''User: '' @ m, ''AI: '' @ r])"
proof -
  let ?xs = "get_chat_history u w @ [''User: '' @ m, ''AI: '' @ r]"
  have t: "ltrim_list ?xs (- 10) (- 1) = lastn 10 ?xs"
    using ltrim_list_lastn [of 10 ?xs] by simp
  have ne: "lastn 10 ?xs \<noteq> []"
    by (rule lastn_nonempty) simp_all
  show ?thesis
    using ne t by (simp add: update_chat_history_def get_chat_history_def Let_def)
qed

lemma get_after_append_more:
  "get_chat_history u (append_all u xs (update_chat_history u m r w))
     = lastn 10 (get_chat_history u w @ exchange_entries ((m, r) # xs))"
proof (induction xs arbitrary: m r w)
  case Nil
  show ?case by (simp add: get_after_update exchange_entries_def)
next
  case (Cons x xs)
  obtain m' r' where x: "x = (m', r')" by (cases x)
  have "get_chat_history u (append_all u (x # xs) (update_chat_history u m r w))
          = lastn 10 (get_chat_history u (update_chat_history u m r w)
                        @ exchange_entries ((m', r') # xs))"
    by (simp add: x Cons.IH)
  also have "\<dots> = lastn 10 ((get_chat_history u w @ [''User: '' @ m, ''AI: '' @ r])
                        @ exchange_entries ((m', r') # xs))"
    by (simp only: get_after_update lastn_append_lastn)
  also have "\<dots> = lastn 10 (get_chat_history u w @ exchange_entries ((m, r) # x # xs))"
    by (simp add: x exchange_entries_def)
  finally show ?case .
qed

lemma get_after_append_all:
  "xs \<noteq> [] \<Longrightarrow>
   get_chat_history u (append_all u xs w) = lastn 10 (get_chat_history u w @ exchange_entries xs)"
proof (cases xs)
  case Nil
  assume "xs \<noteq> []"
  with Nil show ?thesis by simp
next
  case (Cons x ys)
  obtain m r where x: "x = (m, r)" by (cases x)
  show ?thesis by (simp add: Cons x get_after_append_more)
qed

lemma length_exchange_entries: "length (exchange_entries xs) = 2 * length xs"
  by (induction xs) (auto simp: exchange_entries_def)

lemma lastn_append_long: "n \<le> length ys \<Longrightarrow> lastn n (xs @ ys) = lastn n ys"
  by (simp add: lastn_def)

text \<open>
  C2, as the code has it. The log keeps 10 entries, not 20: after 11 exchanges (22
  entries) appended for one user, whatever the log held before, the history read back is
  the last 10 of these entries, oldest first, the 12 earlier ones being gone; and after
  any append the log holds at most 10 entries.
\<close>

theorem history_keeps_last_ten:
  "(length xs = 11 \<longrightarrow>
      get_chat_history u (append_all u xs w) = drop 12 (exchange_entries xs) \<and>
      length (get_chat_history u (append_all u xs w)) = 10) \<and>
   length (get_chat_history u (update_chat_history u m r w)) \<le> 10"
proof (intro conjI impI)
  assume len: "length xs = 11"
  then have ne: "xs \<noteq> []" by auto
  have l22: "length (exchange_entries xs) = 22"
    using len by (simp add: length_exchange_entries)
  have "get_chat_history u (append_all u xs w)
          = lastn 10 (get_chat_history u w @ exchange_entries xs)"
    using ne by (rule get_after_append_all)
  also have "\<dots> = lastn 10 (exchange_entries xs)"
    using l22 by (simp add: lastn_append_long)
  also have "\<dots> = drop 12 (exchange_entries xs)"
    using l22 by (simp add: lastn_def)
  finally show eq: "get_chat_history u (append_all u xs w) = drop 12 (exchange_entries xs)" .
  show "length (get_chat_history u (append_all u xs w)) = 10"
    using l22 by (simp add: eq)
next
  show "length (get_chat_history u (update_chat_history u m r w)) \<le> 10"
    by (simp add: get_after_update length_lastn)
qed

theorem history_keeps_last_ten_witness:
  "length [(''a'', ''A''), (''b'', ''B''), (''c'', ''C''), (''d'', ''D''), (''e'', ''E''),
           (''f'', ''F''), (''g'', ''G''), (''h'', ''H''), (''i'', ''I''), (''j'', ''J''),
           (''k'', ''K'')] = (11::nat) \<and>
   get_chat_history ''u''
     (append_all ''u''
        [(''a'', ''A''), (''b'', ''B''), (''c'', ''C''), (''d'', ''D''), (''e'', ''E''),
         (''f'', ''F''), (''g'', ''G''), (''h'', ''H''), (''i'', ''I''), (''j'', ''J''),
         (''k'', ''K'')] init)
     = [''User: g'', ''AI: G'', ''User: h'', ''AI: H'', ''User: i'', ''AI: I'',
        ''User: j'', ''AI: J'', ''User: k'', ''AI: K'']"
proof -
  let ?xs = "[(''a'', ''A''), (''b'', ''B''), (''c'', ''C''), (''d'', ''D''), (''e'', ''E''),
              (''f'', ''F''), (''g'', ''G''), (''h'', ''H''), (''i'', ''I''), (''j'', ''J''),
              (''k'', ''K'')]"
  have h: "length ?xs = 11" by simp
  have "get_chat_history ''u'' (append_all ''u'' ?xs init) = drop 12 (exchange_entries ?xs)"
    using history_keeps_last_ten [of ?xs "''u''" init] h by blast
  then show ?thesis by (simp add: exchange_entries_def)
qed

text \<open>
  The claim as the specification states it, with 20 entries kept and only the first two
  evicted, fails on eleven one-letter exchanges appended to the empty log.
\<close>

theorem history_twenty_counterexample:
  "get_chat_history ''u''
     (append_all ''u''
        [(''a'', ''A''), (''b'', ''B''), (''c'', ''C''), (''d'', ''D''), (''e'', ''E''),
         (''f'', ''F''), (''g'', ''G''), (''h'', ''H''), (''i'', ''I''), (''j'', ''J''),
         (''k'', ''K'')] init)
   \<noteq> drop 2 (exchange_entries
        [(''a'', ''A''), (''b'', ''B''), (''c'', ''C''), (''d'', ''D''), (''e'', ''E''),
         (''f'', ''F''), (''g'', ''G''), (''h'', ''H''), (''i'', ''I''), (''j'', ''J''),
         (''k'', ''K'')])"
  by (simp add: update_chat_history_def get_chat_history_def ltrim_list_def init_def
                exchange_entries_def Let_def)

text \<open>
  C9. Reading the history of a user who has none gives the empty list, and reading a
  stored history gives the stored entries in their order, which is oldest first: an
  exchange appended to a log is read back behind the entries that were there.
\<close>

theorem history_read:
  "(history_keys w u = None \<longrightarrow> get_chat_history u w = []) \<and>
   (history_keys w u = Some xs \<longrightarrow> get_chat_history u w = xs) \<and>
   get_chat_history u (update_chat_history u m r w)
     = lastn 10 (get_chat_history u w @ [''User: '' @ m, ''AI: '' @ r])"
  by (simp add: get_after_update) (simp add: get_chat_history_def)

theorem history_read_witness:
  "history_keys init ''nobody'' = None \<and> get_chat_history ''nobody'' init = [] \<and>
   history_keys (update_chat_history ''u'' ''hi'' ''hello'' init) ''u''
     = Some [''User: hi'', ''AI: hello''] \<and>
   get_chat_history ''u'' (update_chat_history ''u'' ''hi'' ''hello'' init)
     = [''User: hi'', ''AI: hello'']"
proof -
  have h1: "history_keys init ''nobody'' = None" by (simp add: init_def)
  have h2: "history_keys (update_chat_history ''u'' ''hi'' ''hello'' init) ''u''
              = Some [''User: hi'', ''AI: hello'']"
    by (simp add: update_chat_history_def ltrim_list_def init_def Let_def)
  show ?thesis
    using h1 h2 history_read [of init "''nobody''"]
      history_read [of "update_chat_history ''u'' ''hi'' ''hello'' init" "''u''"
                       "[''User: hi'', ''AI: hello'']"]
    by simp
qed

subsection \<open>The cache in front of the price lookup\<close>

lemma fetch_body_calls: "fetch_calls (snd (fetch_body e k now w)) = fetch_calls w @ [k]"
  by (simp add: fetch_body_def Let_def split: http_result.splits option.splits usd.splits bool.splits)

lemma fetch_body_memo: "memo (snd (fetch_body e k now w)) = memo w"
  by (simp add: fetch_body_def Let_def split: http_result.splits option.splits usd.splits bool.splits)

lemma fetch_miss:
  "cache_get (memo w) now k = None \<Longrightarrow>
   fetch_crypto_price e k now w
     = (fst (fetch_body e k now w),
        (snd (fetch_body e k now w))\<lparr>memo := (memo w)(k \<mapsto> (fst (fetch_body e k now w), now + TTL))\<rparr>)"
  by (simp add: fetch_crypto_price_def fetch_body_memo split_beta)

lemma fetch_hit:
  "cache_get (memo w) now k = Some v \<Longrightarrow> fetch_crypto_price e k now w = (v, w)"
  by (simp add: fetch_crypto_price_def)

lemma cache_get_stored:
  "cache_get (m(k \<mapsto> (v, d))) now k = (if now < d then Some v else None)"
  by (simp add: cache_get_def)

lemma cache_get_other:
  "k' \<noteq> k \<Longrightarrow> cache_get (m(k \<mapsto> (v, d))) now k' = cache_get m now k'"
  by (simp add: cache_get_def)

text \<open>
  C8. A first call for a key, with no live entry for it, runs the body once. A second call
  for the same key less than 30 seconds later returns the stored value and does not run
  the body. A call once the 30 seconds have passed runs the body again.
\<close>

theorem cache_hit_miss:
  assumes first: "cache_get (memo w) t0 k = None"
      and within: "t0 \<le> t1" "t1 < t0 + TTL"
      and after: "t0 + TTL \<le> t2"
  shows "let (r1, w1) = fetch_crypto_price e k t0 w;
             (r2, w2) = fetch_crypto_price e k t1 w1;
             (r3, w3) = fetch_crypto_price e k t2 w2
         in fetch_calls w1 = fetch_calls w @ [k] \<and>
            r2 = r1 \<and> fetch_calls w2 = fetch_calls w1 \<and>
            fetch_calls w3 = fetch_calls w2 @ [k]"
proof -
  let ?r1 = "fst (fetch_body e k t0 w)"
  let ?w1 = "(snd (fetch_body e k t0 w))\<lparr>memo := (memo w)(k \<mapsto> (?r1, t0 + TTL))\<rparr>"
  have c1: "fetch_crypto_price e k t0 w = (?r1, ?w1)"
    using first by (rule fetch_miss)
  have "cache_get (memo ?w1) t1 k = Some ?r1"
    using within by (simp add: cache_get_stored)
  then have c2: "fetch_crypto_price e k t1 ?w1 = (?r1, ?w1)"
    by (rule fetch_hit)
  have "cache_get (memo ?w1) t2 k = None"
    using after by (simp add: cache_get_stored)
  then have c3: "fetch_calls (snd (fetch_crypto_price e k t2 ?w1)) = fetch_calls ?w1 @ [k]"
    by (simp add: fetch_miss fetch_body_calls)
  show ?thesis
    using c3 by (simp add: c1 c2 split_beta fetch_body_calls)
qed

theorem cache_hit_miss_witness:
  "cache_get (memo init) 0 ''BTC'' = None \<and> (0::real) \<le> 29 \<and> (29::real) < 0 + TTL \<and>
   0 + TTL \<le> (31::real) \<and>
   (let (r1, w1) = fetch_crypto_price env_up ''BTC'' 0 init;
        (r2, w2) = fetch_crypto_price env_up ''BTC'' 29 w1;
        (r3, w3) = fetch_crypto_price env_up ''BTC'' 31 w2
    in fetch_calls w1 = fetch_calls init @ [''BTC''] \<and>
       r2 = r1 \<and> fetch_calls w2 = fetch_calls w1 \<and>
       fetch_calls w3 = fetch_calls w2 @ [''BTC''])"
proof -
  have h1: "cache_get (memo init) 0 ''BTC'' = None" by (simp add: cache_get_def init_def)
  have h2: "(0::real) \<le> 29" by simp
  have h3: "(29::real) < 0 + TTL" by (simp add: TTL_def)
  have h4: "0 + TTL \<le> (31::real)" by (simp add: TTL_def)
  show ?thesis
    by (intro conjI h1 h2 h3 h4 cache_hit_miss [OF h1 h2 h3 h4])
qed

lemma fetch_body_failed:
  "failed (http_get e now (lower k)) \<Longrightarrow>
   fst (fetch_body e k now w)
     \<in> {''Error fetching price.'', ''Failed to fetch '' @ k @ '' price.'',
         ''Price for '' @ k @ '' not found.''}"
  by (simp add: fetch_body_def failed_def Let_def
           split: http_result.splits option.splits usd.splits bool.splits)

text \<open>
  C4, as the code has it. A failed price lookup comes back as one of three texts, never
  as an exception, and the decorator stores that text like any other result: a second
  call for the same key within the 30 seconds returns the stored failure text and does not
  run the body again.
\<close>

theorem failure_is_cached:
  assumes first: "cache_get (memo w) t0 k = None"
      and fails: "failed (http_get e t0 (lower k))"
      and within: "t0 \<le> t1" "t1 < t0 + TTL"
  shows "let (r1, w1) = fetch_crypto_price e k t0 w;
             (r2, w2) = fetch_crypto_price e k t1 w1
         in r1 \<in> {''Error fetching price.'', ''Failed to fetch '' @ k @ '' price.'',
                   ''Price for '' @ k @ '' not found.''} \<and>
            cache_get (memo w1) t1 k = Some r1 \<and>
            r2 = r1 \<and> fetch_calls w2 = fetch_calls w1"
proof -
  let ?r1 = "fst (fetch_body e k t0 w)"
  let ?w1 = "(snd (fetch_body e k t0 w))\<lparr>memo := (memo w)(k \<mapsto> (?r1, t0 + TTL))\<rparr>"
  have c1: "fetch_crypto_price e k t0 w = (?r1, ?w1)"
    using first by (rule fetch_miss)
  have hit: "cache_get (memo ?w1) t1 k = Some ?r1"
    using within by (simp add: cache_get_stored)
  then have c2: "fetch_crypto_price e k t1 ?w1 = (?r1, ?w1)"
    by (rule fetch_hit)
  have msg: "?r1 \<in> {''Error fetching price.'', ''Failed to fetch '' @ k @ '' price.'',
                     ''Price for '' @ k @ '' not found.''}"
    using fails by (rule fetch_body_failed)
  show ?thesis
    using msg hit by (simp add: c1 c2)
qed

theorem failure_is_cached_witness:
  "cache_get (memo init) 0 ''btc'' = None \<and> failed (http_get env_down 0 (lower ''btc'')) \<and>
   (0::real) \<le> 1 \<and> (1::real) < 0 + TTL \<and>
   (let (r1, w1) = fetch_crypto_price env_down ''btc'' 0 init;
        (r2, w2) = fetch_crypto_price env_down ''btc'' 1 w1
    in r1 \<in> {''Error fetching price.'', ''Failed to fetch '' @ ''btc'' @ '' price.'',
              ''Price for '' @ ''btc'' @ '' not found.''} \<and>
       cache_get (memo w1) 1 ''btc'' = Some r1 \<and>
       r2 = r1 \<and> fetch_calls w2 = fetch_calls w1)"
proof -
  have h1: "cache_get (memo init) 0 ''btc'' = None" by (simp add: cache_get_def init_def)
  have h2: "failed (http_get env_down 0 (lower ''btc''))" by (simp add: failed_def env_down_def)
  have h3: "(0::real) \<le> 1" by simp
  have h4: "(1::real) < 0 + TTL" by (simp add: TTL_def)
  show ?thesis
    by (intro conjI h1 h2 h3 h4 failure_is_cached [OF h1 h2 h3 h4])
qed

text \<open>
  The claim as the specification states it, that a failure is never stored, fails when
  the price request raises: the second call, one second later, returns the stored text
  and the body has run once only.
\<close>

theorem failure_not_cached_counterexample:
  "failed (http_get env_down 0 (lower ''btc'')) \<and>
   fst (fetch_crypto_price env_down ''btc'' 1 (snd (fetch_crypto_price env_down ''btc'' 0 init)))
     = ''Error fetching price.'' \<and>
   fetch_calls (snd (fetch_crypto_price env_down ''btc'' 1
                  (snd (fetch_crypto_price env_down ''btc'' 0 init)))) = [''btc'']"
  by (simp add: fetch_crypto_price_def fetch_body_def cache_get_def env_down_def init_def
                failed_def TTL_def Let_def)

subsection \<open>Routing of the endpoint\<close>

lemma admit_first:
  "rate_keys w u = None \<Longrightarrow>
   rate_limited NoFault u now w = (True, w\<lparr>rate_keys := (rate_keys w)(u \<mapsto> ([now], Some (now + TIME_FRAME)))\<rparr>)"
  by (simp add: rate_limited_NoFault lrange_all_def lastn_def REQUEST_LIMIT_def)

lemma replace_ne_absent: "\<not> sublist old s \<Longrightarrow> replace_ne old new s = s"
proof (induction old new s rule: replace_ne.induct)
  case (1 old new)
  show ?case by simp
next
  case (2 old new c cs)
  from "2.prems" have np: "\<not> prefix old (c # cs)" and ns: "\<not> sublist old cs"
    by (simp_all add: sublist_Cons_right)
  from np have "\<not> (old \<noteq> [] \<and> prefix old (c # cs))" by simp
  from "2.IH"(2) [OF this ns] np show ?case by simp
qed

lemma prefix_short: "prefix xs (ys @ zs) \<Longrightarrow> length xs \<le> length ys \<Longrightarrow> prefix xs ys"
  by (auto simp: prefix_append)

lemma replace_ne_first:
  assumes ne: "old \<noteq> []"
  shows "\<not> sublist old (a @ butlast old) \<Longrightarrow>
         replace_ne old new (a @ old @ b) = a @ new @ replace_ne old new b"
proof (induction a)
  case Nil
  obtain c cs where old: "old = c # cs" using ne by (cases old) auto
  have "prefix old (c # (cs @ b))" by (simp add: old)
  moreover have "drop (length old) (c # (cs @ b)) = b" by (simp add: old)
  ultimately have "replace_ne old new (c # (cs @ b)) = new @ replace_ne old new b"
    using ne by simp
  then show ?case by (simp add: old)
next
  case (Cons x a)
  from Cons.prems have ns: "\<not> sublist old (a @ butlast old)"
    and np: "\<not> prefix old ((x # a) @ butlast old)"
    by (simp_all add: sublist_Cons_right)
  have "\<not> prefix old (x # (a @ old @ b))"
  proof
    assume "prefix old (x # (a @ old @ b))"
    moreover have "((x # a) @ butlast old) @ ([last old] @ b)
                     = x # (a @ (butlast old @ [last old]) @ b)"
      by simp
    moreover have "butlast old @ [last old] = old"
      using ne by (rule append_butlast_last_id)
    ultimately have "prefix old (((x # a) @ butlast old) @ ([last old] @ b))"
      by (simp only:)
    moreover have "length old \<le> length ((x # a) @ butlast old)"
      by simp
    ultimately have "prefix old ((x # a) @ butlast old)"
      by (rule prefix_short)
    with np show False by simp
  qed
  then have "replace_ne old new (x # (a @ old @ b)) = x # replace_ne old new (a @ old @ b)"
    by simp
  with Cons.IH [OF ns] show ?case by simp
qed

lemma remove_price_of:
  "(\<not> sublist ''price of'' s \<longrightarrow> replace ''price of'' [] s = s) \<and>
   (\<not> sublist ''price of'' (a @ ''price o'') \<longrightarrow>
      replace ''price of'' [] (a @ ''price of'' @ b) = a @ replace ''price of'' [] b)"
proof (intro conjI impI)
  assume "\<not> sublist ''price of'' s"
  then show "replace ''price of'' [] s = s"
    by (simp add: replace_def replace_ne_absent)
next
  assume "\<not> sublist ''price of'' (a @ ''price o'')"
  then have "\<not> sublist ''price of'' (a @ butlast ''price of'')" by simp
  from replace_ne_first [OF _ this, of "[]" b]
  show "replace ''price of'' [] (a @ ''price of'' @ b) = a @ replace ''price of'' [] b"
    by (simp add: replace_def)
qed

lemma dropWhile_all: "\<forall>c\<in>set a. P c \<Longrightarrow> dropWhile P (a @ ys) = dropWhile P ys"
  by (induction a) auto

lemma strip_core:
  assumes a: "\<forall>c\<in>set a. is_space c" and b: "\<forall>c\<in>set b. is_space c"
      and m: "m = [] \<or> (\<not> is_space (hd m) \<and> \<not> is_space (last m))"
  shows "strip (a @ m @ b) = m"
proof (cases "m = []")
  case True
  have "\<forall>c\<in>set (a @ b). is_space c" using a b by auto
  then have e: "dropWhile is_space (a @ b) = []"
    by (simp only: dropWhile_eq_Nil_conv)
  show ?thesis
    by (simp only: strip_def True append_Nil e rev.simps dropWhile.simps)
next
  case False
  with m have h: "\<not> is_space (hd m)" and l: "\<not> is_space (last m)" by simp_all
  have fr: "dropWhile is_space (a @ m @ b) = m @ b"
    using a h False by (cases m) (simp_all add: dropWhile_all)
  have rb: "\<forall>c\<in>set (rev b). is_space c" using b by simp
  have rm: "rev m = last m # rev (butlast m)"
    using False by (metis append_butlast_last_id rev.simps(2) rev_append rev_rev_ident append_Cons append_Nil)
  have "dropWhile is_space (rev b @ rev m) = dropWhile is_space (rev m)"
    by (rule dropWhile_all [OF rb])
  also have "\<dots> = dropWhile is_space (last m # rev (butlast m))"
    by (simp only: rm)
  also have "\<dots> = last m # rev (butlast m)"
    using l by simp
  also have "\<dots> = rev m"
    by (rule rm [symmetric])
  finally have bk: "dropWhile is_space (rev b @ rev m) = rev m" .
  show ?thesis by (simp add: strip_def fr bk)
qed

lemma lower_append: "lower (s @ t) = lower s @ lower t"
  by (simp add: lower_def)

lemma lower_upper_letters: "lower ''ABCDEFGHIJKLMNOPQRSTUVWXYZ'' = ''abcdefghijklmnopqrstuvwxyz''"
  by (simp add: lower_def lower_char_def)

lemma lower_other: "c \<notin> set ''ABCDEFGHIJKLMNOPQRSTUVWXYZ'' \<Longrightarrow> lower [c] = [c]"
  by (simp add: lower_def lower_char_def)

lemma ai_agent_price:
  assumes "user_id req \<noteq> []" and "rate_limited f (user_id req) now w = (True, w1)"
      and "contains ''price'' (lower (action req))"
  shows "ai_agent e f req now w =
           (case fetch_crypto_price e (strip (replace ''price of'' [] (lower (action req)))) now w1 of
              (r, w2) \<Rightarrow> (Inr (200, r), w2))"
  using assms by (simp add: ai_agent_def Let_def)

lemma ai_agent_chat:
  assumes "user_id req \<noteq> []" and "rate_limited f (user_id req) now w = (True, w1)"
      and "\<not> contains ''price'' (lower (action req))"
  shows "ai_agent e f req now w =
           (case enforce_english_response e (user_id req) (text_field req) now w1 of
              (Inl err, w2) \<Rightarrow> (Inl err, w2)
            | (Inr r, w2) \<Rightarrow> (Inr (200, r), w2))"
  using assms by (simp add: ai_agent_def Let_def)

lemma contains_sublist: "contains p s \<longleftrightarrow> sublist p s"
  by (induction s) (auto simp: sublist_Cons_right)

lemma enforce_english_response_price:
  "fetch_calls (snd (enforce_english_response e u x now w)) = fetch_calls w \<and>
   memo (snd (enforce_english_response e u x now w)) = memo w"
  by (simp add: enforce_english_response_def update_chat_history_def Let_def
           split: sum.splits option.splits)

lemma fetch_crypto_price_chat:
  "model_calls (snd (fetch_crypto_price e k now w)) = model_calls w \<and>
   history_keys (snd (fetch_crypto_price e k now w)) = history_keys w"
  by (simp add: fetch_crypto_price_def fetch_body_def Let_def
           split: option.splits http_result.splits usd.splits bool.splits)

text \<open>
  C3, as the code has it. The cache keys its entries on the argument as it is passed: a
  call for one key leaves the entries of every other key alone. Letter case is folded
  by the endpoint, which lower-cases the action before it derives the key: of two
  admitted price requests whose actions differ in letter case only, the second, made
  within 30 seconds of the first having stored its result, gets the same answer and does
  not run the body again.
\<close>

theorem endpoint_folds_case:
  assumes same: "lower (action ra) = lower (action rb)"
      and price: "contains ''price'' (lower (action ra))"
      and ua: "user_id ra \<noteq> []" and ub: "user_id rb \<noteq> []"
      and adm_a: "fst (rate_limited fa (user_id ra) t0 w) = True"
      and miss: "cache_get (memo w) t0 (strip (replace ''price of'' [] (lower (action ra)))) = None"
      and adm_b: "fst (rate_limited fb (user_id rb) t1 (snd (ai_agent e fa ra t0 w))) = True"
      and within: "t0 \<le> t1" "t1 < t0 + TTL"
  shows "(let (xa, wa) = ai_agent e fa ra t0 w;
              (xb, wb) = ai_agent e fb rb t1 wa
          in xb = xa \<and> fetch_calls wb = fetch_calls wa) \<and>
         (k' \<noteq> k \<longrightarrow>
            cache_get (memo (snd (fetch_crypto_price e k now w'))) now' k' = cache_get (memo w') now' k')"
proof
  let ?key = "strip (replace ''price of'' [] (lower (action ra)))"
  let ?w1 = "snd (rate_limited fa (user_id ra) t0 w)"
  have rl1: "rate_limited fa (user_id ra) t0 w = (True, ?w1)"
    using adm_a by (simp add: prod_eq_iff)
  have m1: "memo ?w1 = memo w" and f1: "fetch_calls ?w1 = fetch_calls w"
    using rate_limited_others [of fa "user_id ra" t0 w] by simp_all
  let ?r = "fst (fetch_body e ?key t0 ?w1)"
  let ?wa = "(snd (fetch_body e ?key t0 ?w1))\<lparr>memo := (memo ?w1)(?key \<mapsto> (?r, t0 + TTL))\<rparr>"
  have "cache_get (memo ?w1) t0 ?key = None"
    using miss by (simp add: m1)
  then have fa: "fetch_crypto_price e ?key t0 ?w1 = (?r, ?wa)"
    by (rule fetch_miss)
  have a: "ai_agent e fa ra t0 w = (Inr (200, ?r), ?wa)"
    using ai_agent_price [OF ua rl1 price, of e] by (simp add: fa)
  let ?w2 = "snd (rate_limited fb (user_id rb) t1 ?wa)"
  have rl2: "rate_limited fb (user_id rb) t1 ?wa = (True, ?w2)"
    using adm_b by (simp add: a prod_eq_iff)
  have m2: "memo ?w2 = memo ?wa" and f2: "fetch_calls ?w2 = fetch_calls ?wa"
    using rate_limited_others [of fb "user_id rb" t1 ?wa] by simp_all
  have "cache_get (memo ?w2) t1 ?key = Some ?r"
    using within by (simp add: m2 cache_get_stored)
  then have fb: "fetch_crypto_price e ?key t1 ?w2 = (?r, ?w2)"
    by (rule fetch_hit)
  have price_b: "contains ''price'' (lower (action rb))"
    using price same by simp
  have kb: "strip (replace ''price of'' [] (lower (action rb))) = ?key"
    by (simp add: same)
  have b: "ai_agent e fb rb t1 ?wa = (Inr (200, ?r), ?w2)"
    using ai_agent_price [OF ub rl2 price_b, of e] by (simp only: kb fb prod.case)
  show "let (xa, wa) = ai_agent e fa ra t0 w;
            (xb, wb) = ai_agent e fb rb t1 wa
        in xb = xa \<and> fetch_calls wb = fetch_calls wa"
    by (simp add: a b f2)
next
  show "k' \<noteq> k \<longrightarrow>
          cache_get (memo (snd (fetch_crypto_price e k now w'))) now' k' = cache_get (memo w') now' k'"
    by (simp add: fetch_crypto_price_def fetch_body_memo split_beta cache_get_def
             split: option.splits)
qed

theorem endpoint_folds_case_witness:
  "lower (action \<lparr>user_id = ''alice'', action = ''price of btc'', text_field = ''''\<rparr>)
     = lower (action \<lparr>user_id = ''bob'', action = ''Price of BTC'', text_field = ''''\<rparr>) \<and>
   contains ''price'' (lower (action \<lparr>user_id = ''alice'', action = ''price of btc'', text_field = ''''\<rparr>)) \<and>
   fst (rate_limited NoFault ''alice'' 0 init) = True \<and>
   cache_get (memo init) 0 ''btc'' = None \<and>
   fst (rate_limited NoFault ''bob'' 10
          (snd (ai_agent env_up NoFault
                  \<lparr>user_id = ''alice'', action = ''price of btc'', text_field = ''''\<rparr> 0 init))) = True \<and>
   (0::real) \<le> 10 \<and> (10::real) < 0 + TTL \<and>
   (let (xa, wa) = ai_agent env_up NoFault
                     \<lparr>user_id = ''alice'', action = ''price of btc'', text_field = ''''\<rparr> 0 init;
        (xb, wb) = ai_agent env_up NoFault
                     \<lparr>user_id = ''bob'', action = ''Price of BTC'', text_field = ''''\<rparr> 10 wa
    in xb = xa \<and> fetch_calls wb = fetch_calls wa) \<and>
   ''BTC'' \<noteq> ''btc'' \<and>
   cache_get (memo (snd (fetch_crypto_price env_up ''btc'' 0 init))) 1 ''BTC''
     = cache_get (memo init) 1 ''BTC''"
proof -
  let ?a = "\<lparr>user_id = ''alice'', action = ''price of btc'', text_field = ''''\<rparr>"
  let ?b = "\<lparr>user_id = ''bob'', action = ''Price of BTC'', text_field = ''''\<rparr>"
  have same: "lower (action ?a) = lower (action ?b)"
    by (simp add: lower_def lower_char_def)
  have price: "contains ''price'' (lower (action ?a))"
    by (simp add: lower_def lower_char_def)
  have ua: "user_id ?a \<noteq> []" and ub: "user_id ?b \<noteq> []" by simp_all
  have adm: "fst (rate_limited NoFault ''alice'' 0 init) = True"
    by (simp add: admit_first init_def)
  then have adm_a: "fst (rate_limited NoFault (user_id ?a) 0 init) = True" by simp
  have key: "strip (replace ''price of'' [] (lower (action ?a))) = ''btc''"
    by (simp add: strip_def replace_def is_space_def lower_def lower_char_def)
  have miss0: "cache_get (memo init) 0 ''btc'' = None"
    by (simp add: cache_get_def init_def)
  then have miss: "cache_get (memo init) 0 (strip (replace ''price of'' [] (lower (action ?a)))) = None"
    by (simp only: key)
  have rk: "rate_keys (snd (ai_agent env_up NoFault ?a 0 init)) ''bob'' = None"
    using ai_agent_rate [of env_up NoFault ?a 0 init]
    by (auto simp: admit_first init_def)
  have admb: "fst (rate_limited NoFault ''bob'' 10 (snd (ai_agent env_up NoFault ?a 0 init))) = True"
    using rk by (simp add: admit_first)
  then have adm_b: "fst (rate_limited NoFault (user_id ?b) 10 (snd (ai_agent env_up NoFault ?a 0 init))) = True"
    by simp
  have t1: "(0::real) \<le> 10" by simp
  have t2: "(10::real) < 0 + TTL" by (simp add: TTL_def)
  note inst = endpoint_folds_case [OF same price ua ub adm_a miss adm_b t1 t2, THEN conjunct1]
  have ne: "''BTC'' \<noteq> ''btc''" by simp
  have other: "cache_get (memo (snd (fetch_crypto_price env_up ''btc'' 0 init))) 1 ''BTC''
                 = cache_get (memo init) 1 ''BTC''"
    using endpoint_folds_case [OF same price ua ub adm_a miss adm_b t1 t2, THEN conjunct2,
                               of "''BTC''" "''btc''" 0 init 1] ne
    by blast
  show ?thesis
    by (intro conjI same price adm miss0 admb t1 t2 inst ne other)
qed

text \<open>
  The claim as the specification states it fails on the cache itself: after a call with
  \<open>btc\<close>, a call with \<open>BTC\<close> one second later runs the body again.
\<close>

theorem cache_key_case_counterexample:
  "fetch_calls (snd (fetch_crypto_price env_up ''BTC'' 1
                  (snd (fetch_crypto_price env_up ''btc'' 0 init)))) = [''btc'', ''BTC'']"
  by (simp add: fetch_crypto_price_def fetch_body_def cache_get_def env_up_def init_def
                TTL_def Let_def)

lemma route_cases:
  assumes uid: "user_id req \<noteq> []"
      and admitted: "rate_limited f (user_id req) now w = (True, w1)"
  shows "(sublist ''price'' (lower (action req)) \<longrightarrow>
            ai_agent e f req now w =
              (case fetch_crypto_price e (strip (replace ''price of'' [] (lower (action req)))) now w1 of
                 (r, w2) \<Rightarrow> (Inr (200, r), w2)) \<and>
            model_calls (snd (ai_agent e f req now w)) = model_calls w) \<and>
         (\<not> sublist ''price'' (lower (action req)) \<longrightarrow>
            ai_agent e f req now w =
              (case enforce_english_response e (user_id req) (text_field req) now w1 of
                 (Inl err, w2) \<Rightarrow> (Inl err, w2)
               | (Inr r, w2) \<Rightarrow> (Inr (200, r), w2)) \<and>
            fetch_calls (snd (ai_agent e f req now w)) = fetch_calls w \<and>
            memo (snd (ai_agent e f req now w)) = memo w)"
proof (intro conjI impI)
  have w1: "w1 = snd (rate_limited f (user_id req) now w)"
    using admitted by simp
  note others = rate_limited_others [of f "user_id req" now w, folded w1]
  {
    assume "sublist ''price'' (lower (action req))"
    then have c: "contains ''price'' (lower (action req))"
      by (simp add: contains_sublist)
    show p: "ai_agent e f req now w =
              (case fetch_crypto_price e (strip (replace ''price of'' [] (lower (action req)))) now w1 of
                 (r, w2) \<Rightarrow> (Inr (200, r), w2))"
      by (rule ai_agent_price [OF uid admitted c])
    show "model_calls (snd (ai_agent e f req now w)) = model_calls w"
      using others by (simp add: p split_beta fetch_crypto_price_chat)
  }
  {
    assume "\<not> sublist ''price'' (lower (action req))"
    then have c: "\<not> contains ''price'' (lower (action req))"
      by (simp add: contains_sublist)
    show q: "ai_agent e f req now w =
              (case enforce_english_response e (user_id req) (text_field req) now w1 of
                 (Inl err, w2) \<Rightarrow> (Inl err, w2)
               | (Inr r, w2) \<Rightarrow> (Inr (200, r), w2))"
      by (rule ai_agent_chat [OF uid admitted c])
    have "snd (ai_agent e f req now w)
            = snd (enforce_english_response e (user_id req) (text_field req) now w1)"
      by (simp add: q split_beta split: sum.splits)
    then show "fetch_calls (snd (ai_agent e f req now w)) = fetch_calls w"
      and "memo (snd (ai_agent e f req now w)) = memo w"
      using others by (simp_all add: enforce_english_response_price)
  }
qed

text \<open>
  C10. For an admitted request whose action is an ASCII string, the price lookup is taken
  exactly when the lower-cased action contains \<open>price\<close>; its key is the lower-cased
  action with the occurrences of \<open>price of\<close> removed and the surrounding whitespace
  stripped, and the language model is not called. Every other admitted request goes to
  the language model and leaves the cache and the price API alone. The three string
  operations are what their names say. Removing the occurrences: a string without
  \<open>price of\<close> is left as it is, and otherwise the first occurrence is dropped and the
  rest behind it is treated in the same way. Stripping: of whitespace, then a text that
  is empty or begins and ends with other characters, then whitespace, the text is kept;
  whitespace is tab, line feed, vertical tab, form feed, carriage return, the four
  separators 28 to 31 and the space. Lower-casing: character by character, A to Z
  becoming a to z and every other ASCII character staying.
\<close>

theorem price_route:
  assumes uid: "user_id req \<noteq> []"
      and ascii: "is_ascii (action req)"
      and admitted: "rate_limited f (user_id req) now w = (True, w1)"
  shows "(sublist ''price'' (lower (action req)) \<longrightarrow>
            ai_agent e f req now w =
              (case fetch_crypto_price e (strip (replace ''price of'' [] (lower (action req)))) now w1 of
                 (r, w2) \<Rightarrow> (Inr (200, r), w2)) \<and>
            model_calls (snd (ai_agent e f req now w)) = model_calls w) \<and>
         (\<not> sublist ''price'' (lower (action req)) \<longrightarrow>
            ai_agent e f req now w =
              (case enforce_english_response e (user_id req) (text_field req) now w1 of
                 (Inl err, w2) \<Rightarrow> (Inl err, w2)
               | (Inr r, w2) \<Rightarrow> (Inr (200, r), w2)) \<and>
            fetch_calls (snd (ai_agent e f req now w)) = fetch_calls w \<and>
            memo (snd (ai_agent e f req now w)) = memo w) \<and>
         (\<not> sublist ''price of'' s \<longrightarrow> replace ''price of'' [] s = s) \<and>
         (\<not> sublist ''price of'' (a @ ''price o'') \<longrightarrow>
            replace ''price of'' [] (a @ ''price of'' @ b) = a @ replace ''price of'' [] b) \<and>
         (is_ascii (p @ m @ q) \<and> (\<forall>c\<in>set p. is_space c) \<and> (\<forall>c\<in>set q. is_space c) \<and>
          (m = [] \<or> \<not> is_space (hd m) \<and> \<not> is_space (last m)) \<longrightarrow>
            strip (p @ m @ q) = m) \<and>
         (\<not> digit7 c \<longrightarrow>
            is_space c = (c \<in> {CHR 0x09, CHR 0x0A, CHR 0x0B, CHR 0x0C, CHR 0x0D,
                               CHR 0x1C, CHR 0x1D, CHR 0x1E, CHR 0x1F, CHR 0x20})) \<and>
         lower (s1 @ s2) = lower s1 @ lower s2 \<and>
         lower ''ABCDEFGHIJKLMNOPQRSTUVWXYZ'' = ''abcdefghijklmnopqrstuvwxyz'' \<and>
         (\<not> digit7 c \<and> c \<notin> set ''ABCDEFGHIJKLMNOPQRSTUVWXYZ'' \<longrightarrow> lower [c] = [c])"
proof -
  note r = route_cases [OF uid admitted, of e]
  note x = remove_price_of [of s a b]
  have st: "is_ascii (p @ m @ q) \<and> (\<forall>c\<in>set p. is_space c) \<and> (\<forall>c\<in>set q. is_space c) \<and>
            (m = [] \<or> \<not> is_space (hd m) \<and> \<not> is_space (last m)) \<longrightarrow> strip (p @ m @ q) = m"
    using strip_core [of p q m] by blast
  have sp: "\<not> digit7 c \<longrightarrow>
            is_space c = (c \<in> {CHR 0x09, CHR 0x0A, CHR 0x0B, CHR 0x0C, CHR 0x0D,
                               CHR 0x1C, CHR 0x1D, CHR 0x1E, CHR 0x1F, CHR 0x20})"
    by (simp add: is_space_def)
  have lo: "\<not> digit7 c \<and> c \<notin> set ''ABCDEFGHIJKLMNOPQRSTUVWXYZ'' \<longrightarrow> lower [c] = [c]"
    using lower_other [of c] by blast
  show ?thesis
    by (intro conjI r [THEN conjunct1] r [THEN conjunct2] x [THEN conjunct1] x [THEN conjunct2]
              st sp lower_append lower_upper_letters lo)
qed

theorem price_route_witness:
  "user_id \<lparr>user_id = ''alice'', action = ''price btc'', text_field = ''''\<rparr> \<noteq> [] \<and>
   is_ascii ''price btc'' \<and> is_ascii ''Priceless'' \<and> is_ascii ''translate'' \<and>
   is_ascii ''price of btc'' \<and> is_ascii (''  Price of'' @ [CHR 0x09] @ ''BTC '' @ [CHR 0x0A]) \<and>
   rate_limited NoFault ''alice'' 0 init
     = (True, init\<lparr>rate_keys := [''alice'' \<mapsto> ([0], Some 60)]\<rparr>) \<and>
   sublist ''price'' (lower ''price btc'') \<and>
   ai_agent env_up NoFault \<lparr>user_id = ''alice'', action = ''price btc'', text_field = ''''\<rparr> 0 init
     = (case fetch_crypto_price env_up ''price btc'' 0 (init\<lparr>rate_keys := [''alice'' \<mapsto> ([0], Some 60)]\<rparr>) of
          (r, w2) \<Rightarrow> (Inr (200, r), w2)) \<and>
   sublist ''price'' (lower ''Priceless'') \<and>
   ai_agent env_up NoFault \<lparr>user_id = ''alice'', action = ''Priceless'', text_field = ''''\<rparr> 0 init
     = (case fetch_crypto_price env_up ''priceless'' 0 (init\<lparr>rate_keys := [''alice'' \<mapsto> ([0], Some 60)]\<rparr>) of
          (r, w2) \<Rightarrow> (Inr (200, r), w2)) \<and>
   sublist ''price'' (lower ''price of btc'') \<and>
   ai_agent env_up NoFault \<lparr>user_id = ''alice'', action = ''price of btc'', text_field = ''''\<rparr> 0 init
     = (case fetch_crypto_price env_up ''btc'' 0 (init\<lparr>rate_keys := [''alice'' \<mapsto> ([0], Some 60)]\<rparr>) of
          (r, w2) \<Rightarrow> (Inr (200, r), w2)) \<and>
   sublist ''price'' (lower (''  Price of'' @ [CHR 0x09] @ ''BTC '' @ [CHR 0x0A])) \<and>
   ai_agent env_up NoFault
       \<lparr>user_id = ''alice'', action = ''  Price of'' @ [CHR 0x09] @ ''BTC '' @ [CHR 0x0A],
        text_field = ''''\<rparr> 0 init
     = (case fetch_crypto_price env_up ''btc'' 0 (init\<lparr>rate_keys := [''alice'' \<mapsto> ([0], Some 60)]\<rparr>) of
          (r, w2) \<Rightarrow> (Inr (200, r), w2)) \<and>
   \<not> sublist ''price'' (lower ''translate'') \<and>
   fetch_calls (snd (ai_agent env_up NoFault
       \<lparr>user_id = ''alice'', action = ''translate'', text_field = ''hola''\<rparr> 0 init)) = fetch_calls init \<and>
   \<not> sublist ''price of'' ''price btc'' \<and>
   replace ''price of'' [] ''price btc'' = ''price btc'' \<and>
   \<not> sublist ''price of'' (''the '' @ ''price o'') \<and>
   replace ''price of'' [] (''the '' @ ''price of'' @ '' btc'') = ''the '' @ replace ''price of'' [] '' btc'' \<and>
   strip ((CHR 0x20 # [CHR 0x09]) @ ''btc eth'' @ [CHR 0x0A]) = ''btc eth'' \<and>
   is_space (CHR 0x20) \<and>
   lower [CHR ''-''] = [CHR ''-'']"
proof -
  let ?w1 = "init\<lparr>rate_keys := [''alice'' \<mapsto> ([0], Some 60)]\<rparr>"
  let ?a = "\<lparr>user_id = ''alice'', action = ''price btc'', text_field = ''''\<rparr>"
  let ?b = "\<lparr>user_id = ''alice'', action = ''Priceless'', text_field = ''''\<rparr>"
  let ?c = "\<lparr>user_id = ''alice'', action = ''translate'', text_field = ''hola''\<rparr>"
  let ?d = "\<lparr>user_id = ''alice'', action = ''price of btc'', text_field = ''''\<rparr>"
  let ?e = "\<lparr>user_id = ''alice'', action = ''  Price of'' @ [CHR 0x09] @ ''BTC '' @ [CHR 0x0A],
             text_field = ''''\<rparr>"
  have ua: "user_id ?a \<noteq> []" and ub: "user_id ?b \<noteq> []" and uc: "user_id ?c \<noteq> []"
    and ud: "user_id ?d \<noteq> []" and ue: "user_id ?e \<noteq> []"
    by simp_all
  have ia: "is_ascii ''price btc''" and ib: "is_ascii ''Priceless''"
    and ic: "is_ascii ''translate''" and id: "is_ascii ''price of btc''"
    and ie: "is_ascii (''  Price of'' @ [CHR 0x09] @ ''BTC '' @ [CHR 0x0A])"
    by (simp_all add: is_ascii_def)
  have asc_a: "is_ascii (action ?a)" and asc_b: "is_ascii (action ?b)"
    and asc_c: "is_ascii (action ?c)" and asc_d: "is_ascii (action ?d)"
    and asc_e: "is_ascii (action ?e)"
    using ia ib ic id ie by simp_all
  have adm: "rate_limited NoFault ''alice'' 0 init = (True, ?w1)"
    by (simp add: admit_first init_def TIME_FRAME_def)
  have adm_a: "rate_limited NoFault (user_id ?a) 0 init = (True, ?w1)"
    and adm_b: "rate_limited NoFault (user_id ?b) 0 init = (True, ?w1)"
    and adm_c: "rate_limited NoFault (user_id ?c) 0 init = (True, ?w1)"
    and adm_d: "rate_limited NoFault (user_id ?d) 0 init = (True, ?w1)"
    and adm_e: "rate_limited NoFault (user_id ?e) 0 init = (True, ?w1)"
    using adm by simp_all
  have pa: "sublist ''price'' (lower ''price btc'')"
    by (simp add: contains_sublist [symmetric] lower_def lower_char_def)
  have pb: "sublist ''price'' (lower ''Priceless'')"
    by (simp add: contains_sublist [symmetric] lower_def lower_char_def)
  have pc: "\<not> sublist ''price'' (lower ''translate'')"
    by (simp add: contains_sublist [symmetric] lower_def lower_char_def)
  have pd: "sublist ''price'' (lower ''price of btc'')"
    by (simp add: contains_sublist [symmetric] lower_def lower_char_def)
  have pe: "sublist ''price'' (lower (''  Price of'' @ [CHR 0x09] @ ''BTC '' @ [CHR 0x0A]))"
    by (simp add: contains_sublist [symmetric] lower_def lower_char_def)
  have ka: "strip (replace ''price of'' [] (lower ''price btc'')) = ''price btc''"
    by (simp add: strip_def replace_def is_space_def lower_def lower_char_def)
  have kb: "strip (replace ''price of'' [] (lower ''Priceless'')) = ''priceless''"
    by (simp add: strip_def replace_def is_space_def lower_def lower_char_def)
  have kd: "strip (replace ''price of'' [] (lower ''price of btc'')) = ''btc''"
    by (simp add: strip_def replace_def is_space_def lower_def lower_char_def)
  have ke: "strip (replace ''price of'' []
              (lower (''  Price of'' @ [CHR 0x09] @ ''BTC '' @ [CHR 0x0A]))) = ''btc''"
    by (simp add: strip_def replace_def is_space_def lower_def lower_char_def)
  have ra: "ai_agent env_up NoFault ?a 0 init
     = (case fetch_crypto_price env_up ''price btc'' 0 ?w1 of (r, w2) \<Rightarrow> (Inr (200, r), w2))"
    using price_route [OF ua asc_a adm_a, of env_up, THEN conjunct1] pa ka by simp
  have rb: "ai_agent env_up NoFault ?b 0 init
     = (case fetch_crypto_price env_up ''priceless'' 0 ?w1 of (r, w2) \<Rightarrow> (Inr (200, r), w2))"
    using price_route [OF ub asc_b adm_b, of env_up, THEN conjunct1] pb kb by simp
  have rd: "ai_agent env_up NoFault ?d 0 init
     = (case fetch_crypto_price env_up ''btc'' 0 ?w1 of (r, w2) \<Rightarrow> (Inr (200, r), w2))"
    using price_route [OF ud asc_d adm_d, of env_up, THEN conjunct1] pd kd by simp
  have re: "ai_agent env_up NoFault ?e 0 init
     = (case fetch_crypto_price env_up ''btc'' 0 ?w1 of (r, w2) \<Rightarrow> (Inr (200, r), w2))"
    using price_route [OF ue asc_e adm_e, of env_up, THEN conjunct1] pe ke by simp
  have rc: "fetch_calls (snd (ai_agent env_up NoFault ?c 0 init)) = fetch_calls init"
  proof -
    have "\<not> sublist ''price'' (lower (action ?c))" using pc by simp
    with price_route [OF uc asc_c adm_c, of env_up, THEN conjunct2, THEN conjunct1]
    show ?thesis by blast
  qed
  have na: "\<not> sublist ''price of'' ''price btc''"
    by (simp add: contains_sublist [symmetric])
  have nb: "\<not> sublist ''price of'' (''the '' @ ''price o'')"
    by (simp add: contains_sublist [symmetric])
  note rest = price_route [OF ua asc_a adm_a, of env_up "''price btc''" "''the ''" "'' btc''"
                             "CHR 0x20 # [CHR 0x09]" "''btc eth''" "[CHR 0x0A]" "CHR 0x20"
                             "[]" "[]",
                           THEN conjunct2, THEN conjunct2]
  have sa: "replace ''price of'' [] ''price btc'' = ''price btc''"
    using rest na by blast
  have sb: "replace ''price of'' [] (''the '' @ ''price of'' @ '' btc'')
              = ''the '' @ replace ''price of'' [] '' btc''"
    using rest nb by blast
  have h1: "is_ascii ((CHR 0x20 # [CHR 0x09]) @ ''btc eth'' @ [CHR 0x0A])"
    by (simp add: is_ascii_def)
  have h2: "\<forall>c\<in>set (CHR 0x20 # [CHR 0x09]). is_space c"
    by (simp add: is_space_def)
  have h3: "\<forall>c\<in>set [CHR 0x0A]. is_space c"
    by (simp add: is_space_def)
  have h4: "''btc eth'' = [] \<or> \<not> is_space (hd ''btc eth'') \<and> \<not> is_space (last ''btc eth'')"
    by (simp add: is_space_def)
  have sc: "strip ((CHR 0x20 # [CHR 0x09]) @ ''btc eth'' @ [CHR 0x0A]) = ''btc eth''"
    using rest h1 h2 h3 h4 by blast
  have h5: "\<not> digit7 (CHR 0x20)" by simp
  have sd: "is_space (CHR 0x20)"
    using rest h5 by simp
  note rest2 = price_route [OF ua asc_a adm_a, where c = "CHR ''-''",
                            THEN conjunct2, THEN conjunct2, THEN conjunct2, THEN conjunct2,
                            THEN conjunct2, THEN conjunct2, THEN conjunct2, THEN conjunct2]
  have h6: "\<not> digit7 (CHR ''-'') \<and> CHR ''-'' \<notin> set ''ABCDEFGHIJKLMNOPQRSTUVWXYZ''" by simp
  have se: "lower [CHR ''-''] = [CHR ''-'']"
    using rest2 h6 by blast
  show ?thesis
    by (intro conjI ua ia ib ic id ie adm pa ra pb rb pd rd pe re pc rc na sa nb sb sc sd se)
qed

subsection \<open>Failure of the language model\<close>

text \<open>
  C6. When the call of the language model raises, the answer is the fixed fallback
  message and the conversation log of every user is what it was: nothing of the request
  is appended.
\<close>

theorem model_failure_keeps_history:
  assumes built: "build_messages (get_chat_history u w) x = Inr msgs"
      and fails: "chat_completion e now msgs = None"
  shows "fst (enforce_english_response e u x now w) = Inr ''I encountered an issue. Please try again.'' \<and>
         history_keys (snd (enforce_english_response e u x now w)) = history_keys w \<and>
         get_chat_history u' (snd (enforce_english_response e u x now w)) = get_chat_history u' w"
  using assms by (simp add: enforce_english_response_def Let_def get_chat_history_def)

theorem model_failure_keeps_history_witness:
  "build_messages (get_chat_history ''u'' init) ''hola''
     = Inr [(''system'', ''Respond in English and retain conversation context.''), (''user'', ''hola'')] \<and>
   chat_completion env_down 0
     [(''system'', ''Respond in English and retain conversation context.''), (''user'', ''hola'')] = None \<and>
   fst (enforce_english_response env_down ''u'' ''hola'' 0 init)
     = Inr ''I encountered an issue. Please try again.'' \<and>
   get_chat_history ''u'' (snd (enforce_english_response env_down ''u'' ''hola'' 0 init))
     = get_chat_history ''u'' init"
proof -
  let ?ms = "[(''system'', ''Respond in English and retain conversation context.''), (''user'', ''hola'')]"
  have h1: "build_messages (get_chat_history ''u'' init) ''hola'' = Inr ?ms"
    by (simp add: build_messages_def get_chat_history_def init_def)
  have h2: "chat_completion env_down 0 ?ms = None" by (simp add: env_down_def)
  show ?thesis
    using h1 h2 model_failure_keeps_history [OF h1 h2, of "''u''"] by blast
qed

end
